theory Spec2Isabelle
  imports Main "HOL-Library.Multiset"
begin

section \<open>Python values used by \<^verbatim>\<open>reddit_fetcher.py\<close>\<close>

text \<open>
  Python strings are modelled as \<^typ>\<open>string\<close>, Python integers as \<^typ>\<open>int\<close>, an
  attribute that may be \<^verbatim>\<open>None\<close> as an \<^typ>\<open>'a option\<close>.
\<close>

text \<open>\<^verbatim>\<open>str(n)\<close> for a non-negative integer: its decimal digits.\<close>

fun str_nat :: "nat \<Rightarrow> string" where
  "str_nat n =
     (if n < 10 then [''0123456789'' ! n]
      else str_nat (n div 10) @ [''0123456789'' ! (n mod 10)])"

declare str_nat.simps [simp del]

text \<open>\<^verbatim>\<open>str(i)\<close>, which is what an f-string field \<^verbatim>\<open>{i}\<close> renders for an integer.\<close>

definition str_int :: "int \<Rightarrow> string" where
  "str_int i = (if i < 0 then CHR ''-'' # str_nat (nat (- i)) else str_nat (nat i))"

text \<open>\<^verbatim>\<open>s * n\<close> on a string: \<open>n\<close> copies, none when \<open>n\<close> is zero or negative.\<close>

definition str_repeat :: "string \<Rightarrow> int \<Rightarrow> string" where
  "str_repeat s n = concat (replicate (nat n) s)"

text \<open>
  \<^verbatim>\<open>x or d\<close> where \<open>x\<close> is an optional string: \<^verbatim>\<open>None\<close> and the empty string are
  falsy, every other string is returned as it is.
\<close>

definition str_or :: "string option \<Rightarrow> string \<Rightarrow> string" where
  "str_or x d = (case x of None \<Rightarrow> d | Some s \<Rightarrow> if s = [] then d else s)"

text \<open>
  \<^verbatim>\<open>sorted(xs, key=key, reverse=reverse)\<close>. Python's sort is stable; with
  \<^verbatim>\<open>reverse=True\<close> it reverses the list, sorts it stably in ascending order and
  reverses the result, so that equal keys keep their original order. The input list is
  not changed: the result is a new list.
\<close>

definition sorted_py :: "('a \<Rightarrow> int) \<Rightarrow> bool \<Rightarrow> 'a list \<Rightarrow> 'a list" where
  "sorted_py key reverse xs =
     (if reverse then rev (sort_key key (rev xs)) else sort_key key xs)"

section \<open>\<^verbatim>\<open>_format_date\<close>\<close>

text \<open>
  \<^verbatim>\<open>datetime.fromtimestamp(timestamp)\<close> is the local civil time of the process. The
  local time zone is the environment of the formatter: it is the parameter \<open>utcoffset\<close>,
  the zone's offset from UTC in seconds at each instant. The days since the epoch are
  turned into a proleptic Gregorian date; timestamps are the integer \<^verbatim>\<open>created_ut\<close>
  of the client library, within the years 1000 to 9999 in which \<^verbatim>\<open>strftime\<close>
  prints four digits of the year.
\<close>

record datetime =
  year :: int
  month :: int
  day :: int
  hour :: int
  minute :: int
  second :: int

definition civil_from_days :: "int \<Rightarrow> int \<times> int \<times> int" where
  "civil_from_days days =
     (let z = days + 719468;
          era = z div 146097;
          doe = z - era * 146097;
          yoe = (doe - doe div 1460 + doe div 36524 - doe div 146096) div 365;
          y = yoe + era * 400;
          doy = doe - (365 * yoe + yoe div 4 - yoe div 100);
          mp = (5 * doy + 2) div 153;
          d = doy - (153 * mp + 2) div 5 + 1;
          m = (if mp < 10 then mp + 3 else mp - 9)
      in (if m \<le> 2 then y + 1 else y, m, d))"

definition fromtimestamp :: "(int \<Rightarrow> int) \<Rightarrow> int \<Rightarrow> datetime" where
  "fromtimestamp utcoffset timestamp =
     (let local = timestamp + utcoffset timestamp;
          secs = local mod 86400
      in case civil_from_days (local div 86400) of
           (y, m, d) \<Rightarrow>
             \<lparr>year = y, month = m, day = d,
              hour = secs div 3600, minute = secs mod 3600 div 60, second = secs mod 60\<rparr>)"

text \<open>A number zero-padded on the left to at least \<open>w\<close> digits, as \<^verbatim>\<open>%m\<close> or \<^verbatim>\<open>%Y\<close> print it.\<close>

definition zero_pad :: "nat \<Rightarrow> int \<Rightarrow> string" where
  "zero_pad w i = (let s = str_int i in replicate (w - length s) CHR ''0'' @ s)"

text \<open>\<^verbatim>\<open>dt.strftime("%Y-%m-%d %H:%M:%S UTC")\<close>\<close>

definition strftime :: "datetime \<Rightarrow> string" where
  "strftime dt =
     zero_pad 4 (year dt) @ ''-'' @ zero_pad 2 (month dt) @ ''-'' @ zero_pad 2 (day dt) @ '' '' @
     zero_pad 2 (hour dt) @ '':'' @ zero_pad 2 (minute dt) @ '':'' @ zero_pad 2 (second dt) @
     '' UTC''"

definition format_date :: "(int \<Rightarrow> int) \<Rightarrow> int \<Rightarrow> string" where
  "format_date utcoffset timestamp = strftime (fromtimestamp utcoffset timestamp)"

section \<open>Comment trees and \<^verbatim>\<open>_format_comment_tree\<close>\<close>

text \<open>
  The fields of the client library's comment that the formatter reads, and its comment
  tree node: a comment and the list of the nodes of its replies.
\<close>

record comment =
  author_display_name :: "string option"
  created_ut :: int
  score :: int
  body :: string

datatype CommentTreeNode =
  CommentTreeNode (val: comment) (children: "CommentTreeNode list")

text \<open>
  The sorted copy of the replies that the loop of the formatter walks:
  \<^verbatim>\<open>sorted(comment_node.children, key=lambda reply_node: reply_node.value.created_ut,
  reverse=True)\<close>.
\<close>

definition sorted_replies :: "CommentTreeNode list \<Rightarrow> CommentTreeNode list" where
  "sorted_replies cs = sorted_py (\<lambda>reply_node. created_ut (val reply_node)) True cs"

text \<open>
  The formatter. \<open>result\<close> is the string the source builds with \<^verbatim>\<open>+=\<close>: the header
  line, the body line, and then, in the loop over the sorted replies, for each reply the
  parent's indentation, the marker \<^verbatim>\<open>"> "\<close> and the reply's own rendering one level
  deeper.
\<close>

function format_comment_tree :: "(int \<Rightarrow> int) \<Rightarrow> CommentTreeNode \<Rightarrow> int \<Rightarrow> string" where
  "format_comment_tree utcoffset (CommentTreeNode comment replies) depth =
     (let author_name = str_or (author_display_name comment) ''[deleted]'';
          created_date = format_date utcoffset (created_ut comment);
          indent = str_repeat ''    '' depth;
          result = [] @ indent @ created_date @ '' ['' @ author_name @ ''] Score: '' @
                   str_int (score comment) @ ''\<newline>'';
          result = result @ indent @ body comment @ ''\<newline>''
      in foldl (\<lambda>result child_node.
                  result @ (indent @ ''> '') @ format_comment_tree utcoffset child_node (depth + 1))
           result (sorted_replies replies))"
  by pat_completeness auto
termination
proof (relation "measure (\<lambda>(utcoffset, node, depth). size node)")
  show "wf (measure (\<lambda>(utcoffset, node, depth). size node))"
    by simp
next
  fix utcoffset :: "int \<Rightarrow> int" and comment :: comment and replies depth
    and author_name created_date indent result resulta :: string and child_node
  assume "child_node \<in> set (sorted_replies replies)"
  then have "child_node \<in> set replies"
    by (simp add: sorted_replies_def sorted_py_def)
  then have "size child_node \<le> size_list size replies"
    by (induction replies) auto
  then show "((utcoffset, child_node, depth + 1), (utcoffset, CommentTreeNode comment replies, depth))
               \<in> measure (\<lambda>(utcoffset, node, depth). size node)"
    by simp
qed

declare format_comment_tree.simps [simp del]

text \<open>
  The lines of a string: the pieces that end at a line feed, and the unterminated rest
  when it is not empty (\<^verbatim>\<open>str.split("\n")\<close> without a final empty piece).
\<close>

fun lines_acc :: "string \<Rightarrow> string \<Rightarrow> string list" where
  "lines_acc cur [] = (if cur = [] then [] else [cur])"
| "lines_acc cur (c # cs) =
     (if c = CHR ''\<newline>'' then cur # lines_acc [] cs else lines_acc (cur @ [c]) cs)"

definition lines_of :: "string \<Rightarrow> string list" where
  "lines_of s = lines_acc [] s"

text \<open>Whether each of the lines of \<open>s\<close> starts with the prefix \<open>p\<close>.\<close>

definition every_line_prefixed :: "string \<Rightarrow> string \<Rightarrow> bool" where
  "every_line_prefixed p s = list_all (\<lambda>l. take (length p) l = p) (lines_of s)"

section \<open>The URL resolver\<close>

text \<open>
  \<^verbatim>\<open>re.search(r"/comments/([^/]+)", reddit_url)\<close> and \<^verbatim>\<open>match.group(1)\<close>. The search
  tries the pattern at each position from the left. At a position the pattern matches
  when the ten characters \<^verbatim>\<open>/comments/\<close> are there and at least one character other
  than \<^verbatim>\<open>/\<close> follows; the group is greedy and nothing follows it in the pattern, so it
  takes every character up to the next \<^verbatim>\<open>/\<close> or the end of the string.
\<close>

definition match_comments_here :: "string \<Rightarrow> string option" where
  "match_comments_here s =
     (if take 10 s = ''/comments/''
      then (let group1 = takeWhile (\<lambda>c. c \<noteq> CHR ''/'') (drop 10 s)
            in if group1 = [] then None else Some group1)
      else None)"

fun re_search_comments :: "string \<Rightarrow> string option" where
  "re_search_comments [] = match_comments_here []"
| "re_search_comments (c # cs) =
     (case match_comments_here (c # cs) of
        Some group1 \<Rightarrow> Some group1
      | None \<Rightarrow> re_search_comments cs)"

text \<open>
  The segment the specification speaks of, stated on positions: at position \<open>i\<close> of
  \<open>url\<close> stands the literal \<^verbatim>\<open>/comments/\<close>, followed by at least one character that is
  not a slash.
\<close>

definition comments_segment_at :: "string \<Rightarrow> nat \<Rightarrow> bool" where
  "comments_segment_at url i \<longleftrightarrow>
     take 10 (drop i url) = ''/comments/'' \<and> i + 10 < length url \<and> url ! (i + 10) \<noteq> CHR ''/''"

section \<open>Submissions: \<^verbatim>\<open>_get_post_type\<close> and \<^verbatim>\<open>_get_content\<close>\<close>

text \<open>
  A submission of the client library. Its class is what the \<^verbatim>\<open>isinstance\<close> tests of
  the source read: a link post carries the link it points to, a text post its body, a
  gallery post its gallery link; every other class of submission is \<open>OtherSubmission\<close>.
  The fields every submission has are those of the record.
\<close>

datatype submission_class =
  LinkPost (link: string)
| TextPost (text_body: string)
| GalleryPost (gallery_link: string)
| OtherSubmission

record submission =
  title :: string
  submission_score :: int
  submission_author_display_name :: "string option"
  subreddit_name :: string
  permalink :: string
  comment_count :: int
  submission_class :: submission_class

fun get_post_type :: "submission \<Rightarrow> string" where
  "get_post_type submission =
     (case submission_class submission of
        LinkPost _ \<Rightarrow> ''link''
      | TextPost _ \<Rightarrow> ''text''
      | GalleryPost _ \<Rightarrow> ''gallery''
      | OtherSubmission \<Rightarrow> ''unknown'')"

fun get_content :: "submission \<Rightarrow> string option" where
  "get_content submission =
     (case submission_class submission of
        LinkPost _ \<Rightarrow> Some (permalink submission)
      | TextPost b \<Rightarrow> Some b
      | GalleryPost g \<Rightarrow> Some g
      | OtherSubmission \<Rightarrow> None)"

text \<open>An f-string field holding an optional string: \<^verbatim>\<open>None\<close> prints as \<^verbatim>\<open>None\<close>.\<close>

definition str_optional :: "string option \<Rightarrow> string" where
  "str_optional x = (case x of None \<Rightarrow> ''None'' | Some s \<Rightarrow> s)"

text \<open>\<^verbatim>\<open>sep.join(xs)\<close>\<close>

fun str_join :: "string \<Rightarrow> string list \<Rightarrow> string" where
  "str_join sep [] = []"
| "str_join sep [x] = x"
| "str_join sep (x # y # ys) = x @ sep @ str_join sep (y # ys)"

section \<open>The entry points\<close>

text \<open>
  The client library is the environment of the entry points. An exception it raises is
  a value: \<open>Exception m\<close> is an instance of a subclass of Python's \<^verbatim>\<open>Exception\<close> whose
  \<^verbatim>\<open>str\<close> is \<open>m\<close> (network error, not found, authentication failure). The three
  capabilities the entry points call:
  \<^item> \<^verbatim>\<open>client.p.submission.fetch(post_id)\<close>;
  \<^item> \<^verbatim>\<open>client.p.comment_tree.fetch(post_id, sort=, limit=, depth=)\<close>, of whose result the
    entry points read only \<^verbatim>\<open>.children\<close>, the list of top-level comment nodes;
  \<^item> \<^verbatim>\<open>client.p.subreddit.pull.hot(subreddit, limit)\<close>, an asynchronous iterator: the
    submissions it yields, and the exception that ends the iteration if one is raised.
  Logging writes to a side channel and is left out.
\<close>

datatype exn = Exception (message: string)

record client =
  submission_fetch :: "string \<Rightarrow> exn + submission"
  comment_tree_fetch :: "string \<Rightarrow> string \<Rightarrow> int option \<Rightarrow> int option \<Rightarrow> exn + CommentTreeNode list"
  pull_hot :: "string \<Rightarrow> int \<Rightarrow> submission list \<times> exn option"

text \<open>
  \<^verbatim>\<open>fetch_reddit_post_from_url\<close> returns a string on two of its paths and a list of
  strings on the third.
\<close>

datatype tool_result = Text string | Sections "string list"

text \<open>The body of the \<^verbatim>\<open>try\<close> block: \<open>Inl e\<close> when the exception \<open>e\<close> leaves it.\<close>

definition fetch_reddit_post_from_url_try ::
  "client \<Rightarrow> (int \<Rightarrow> int) \<Rightarrow> string \<Rightarrow> exn + tool_result" where
  "fetch_reddit_post_from_url_try client utcoffset reddit_url =
     (case re_search_comments reddit_url of
        None \<Rightarrow> Inr (Text ''Invalid Reddit post URL. Could not extract post ID.'')
      | Some post_id \<Rightarrow>
          (case submission_fetch client post_id of
             Inl e \<Rightarrow> Inl e
           | Inr submission \<Rightarrow>
               (let main_content_parts =
                      [''Title: '' @ title submission,
                       ''Score: '' @ str_int (submission_score submission),
                       ''Author: '' @ str_or (submission_author_display_name submission) ''[deleted]'',
                       ''Subreddit: '' @ subreddit_name submission,
                       ''Type: '' @ get_post_type submission,
                       ''Content: '' @ str_optional (get_content submission),
                       ''Link: https://reddit.com'' @ permalink submission,
                       ''Number of Comments: '' @ str_int (comment_count submission)]
                in case comment_tree_fetch client post_id ''top'' None None of
                     Inl e \<Rightarrow> Inl e
                   | Inr comment_forest \<Rightarrow>
                       (if comment_forest \<noteq> []
                        then (let comments_header = ''Comments:'';
                                  formatted_top_comments =
                                    foldl (\<lambda>acc top_level_comment_node.
                                             acc @ [format_comment_tree utcoffset top_level_comment_node 0])
                                      [] comment_forest
                              in if formatted_top_comments \<noteq> []
                                 then Inr (Sections (main_content_parts @
                                        [comments_header @ ''\<newline>'' @
                                         str_join ''\<newline>'' formatted_top_comments]))
                                 else Inr (Sections main_content_parts))
                        else Inr (Sections main_content_parts)))))"

text \<open>The whole function: \<^verbatim>\<open>except Exception as e\<close> turns the exception into a string.\<close>

definition fetch_reddit_post_from_url :: "client \<Rightarrow> (int \<Rightarrow> int) \<Rightarrow> string \<Rightarrow> tool_result" where
  "fetch_reddit_post_from_url client utcoffset reddit_url =
     (case fetch_reddit_post_from_url_try client utcoffset reddit_url of
        Inr r \<Rightarrow> r
      | Inl e \<Rightarrow> Text (''An error occurred: '' @ message e))"





section \<open>The formatter as the run of its statements\<close>



section \<open>Example inputs\<close>

text \<open>A process whose local time zone is UTC.\<close>

definition utc :: "int \<Rightarrow> int" where
  "utc timestamp = 0"

text \<open>A reply, a comment with that one reply, and a comment whose body has two lines.\<close>

definition ex_reply :: CommentTreeNode where
  "ex_reply = CommentTreeNode
     \<lparr>author_display_name = Some ''bob'', created_ut = 1700000000, score = 3, body = ''reply''\<rparr> []"

definition ex_thread :: CommentTreeNode where
  "ex_thread = CommentTreeNode
     \<lparr>author_display_name = None, created_ut = 1600000000, score = - 2, body = ''top''\<rparr> [ex_reply]"

definition ex_multiline :: CommentTreeNode where
  "ex_multiline = CommentTreeNode
     \<lparr>author_display_name = Some [], created_ut = 0, score = 10, body = ''a\<newline>b''\<rparr> []"

text \<open>Replies created at the times 100, 300 and 200, and two replies created at the same time.\<close>

definition ex_leaf :: "string \<Rightarrow> int \<Rightarrow> CommentTreeNode" where
  "ex_leaf name t = CommentTreeNode
     \<lparr>author_display_name = Some name, created_ut = t, score = 1, body = name\<rparr> []"

definition ex_three :: CommentTreeNode where
  "ex_three = CommentTreeNode
     \<lparr>author_display_name = Some ''op'', created_ut = 50, score = 0, body = ''root''\<rparr>
     [ex_leaf ''x'' 100, ex_leaf ''y'' 300, ex_leaf ''z'' 200]"

definition ex_ties :: CommentTreeNode where
  "ex_ties = CommentTreeNode
     \<lparr>author_display_name = Some ''op'', created_ut = 50, score = 0, body = ''root''\<rparr>
     [ex_leaf ''x'' 7, ex_leaf ''y'' 7]"

text \<open>The creation times of a list of nodes, in the order of the list.\<close>

definition reply_times :: "CommentTreeNode list \<Rightarrow> int list" where
  "reply_times cs = map (\<lambda>reply_node. created_ut (val reply_node)) cs"

text \<open>Submissions of each class, and clients: one that serves a post, two whose calls raise.\<close>

definition ex_submission :: "submission_class \<Rightarrow> submission" where
  "ex_submission cls =
     \<lparr>title = ''Hello'', submission_score = 42, submission_author_display_name = Some ''alice'',
      subreddit_name = ''learnpython'', permalink = ''/r/learnpython/comments/12345ab/hello/'',
      comment_count = 1, submission_class = cls\<rparr>"


definition ex_failing_client :: "string \<Rightarrow> client" where
  "ex_failing_client m =
     \<lparr>submission_fetch = (\<lambda>post_id. Inl (Exception m)),
      comment_tree_fetch = (\<lambda>post_id sort limit depth. Inl (Exception m)),
      pull_hot = (\<lambda>subreddit limit. ([ex_submission OtherSubmission], Some (Exception m)))\<rparr>"


section \<open>Properties of the helpers\<close>

subsection \<open>The loop and the shape of the output\<close>

lemma foldl_append_concat: "foldl (\<lambda>r c. r @ g c) r xs = r @ concat (map g xs)"
  by (induction xs arbitrary: r) auto

lemma format_unfold:
  "format_comment_tree tz (CommentTreeNode v cs) d =
     str_repeat ''    '' d @ format_date tz (created_ut v) @ '' ['' @
       str_or (author_display_name v) ''[deleted]'' @ ''] Score: '' @ str_int (score v) @ ''\<newline>'' @
     str_repeat ''    '' d @ body v @ ''\<newline>'' @
     concat (map (\<lambda>c. str_repeat ''    '' d @ ''> '' @ format_comment_tree tz c (d + 1)) (sorted_replies cs))"
  by (simp add: format_comment_tree.simps Let_def foldl_append_concat)

lemma last_append_blocks:
  "r \<noteq> [] \<Longrightarrow> last r = x \<Longrightarrow> (\<And>c. c \<in> set cs \<Longrightarrow> g c \<noteq> [] \<and> last (g c) = x) \<Longrightarrow>
   last (r @ concat (map g cs)) = x"
  by (induction cs arbitrary: r) (simp_all del: append_assoc add: append_assoc [symmetric])

subsection \<open>Lines\<close>

lemma lines_acc_prefix:
  "CHR ''\<newline>'' \<notin> set p \<Longrightarrow> lines_acc cur (p @ s) = lines_acc (cur @ p) s"
  by (induction p arbitrary: cur) auto

lemma lines_acc_cur:
  "s \<noteq> [] \<Longrightarrow> lines_acc cur s = (cur @ hd (lines_acc [] s)) # tl (lines_acc [] s)"
proof (induction s arbitrary: cur)
  case Nil
  then show ?case by simp
next
  case (Cons c cs)
  show ?case
  proof (cases "c = CHR ''\<newline>''")
    case True
    then show ?thesis by simp
  next
    case False
    show ?thesis
    proof (cases "cs = []")
      case True
      with False show ?thesis by simp
    next
      case nonempty: False
      from Cons.IH [OF nonempty, of "cur @ [c]"] Cons.IH [OF nonempty, of "[c]"] False
      show ?thesis by simp
    qed
  qed
qed

lemma lines_of_prefixed_block:
  assumes "CHR ''\<newline>'' \<notin> set p" and "s \<noteq> []"
  shows "lines_of (p @ s) = (p @ hd (lines_of s)) # tl (lines_of s)"
  using assms lines_acc_cur [of s p] by (simp add: lines_of_def lines_acc_prefix)

lemma lines_acc_line:
  "CHR ''\<newline>'' \<notin> set a \<Longrightarrow> lines_acc cur (a @ CHR ''\<newline>'' # b) = (cur @ a) # lines_acc [] b"
  by (induction a arbitrary: cur) auto

lemma lines_of_line:
  "CHR ''\<newline>'' \<notin> set a \<Longrightarrow> lines_of (a @ CHR ''\<newline>'' # b) = a # lines_of b"
  by (simp add: lines_of_def lines_acc_line)

lemma lines_acc_append_terminated:
  "x \<noteq> [] \<Longrightarrow> last x = CHR ''\<newline>'' \<Longrightarrow> lines_acc cur (x @ y) = lines_acc cur x @ lines_acc [] y"
proof (induction x arbitrary: cur)
  case Nil
  then show ?case by simp
next
  case (Cons c cs)
  show ?case
  proof (cases "cs = []")
    case True
    with Cons.prems show ?thesis by simp
  next
    case False
    with Cons.prems have "last cs = CHR ''\<newline>''" by simp
    from Cons.IH [OF False this] show ?thesis by simp
  qed
qed

lemma lines_acc_nonempty: "cur \<noteq> [] \<or> s \<noteq> [] \<Longrightarrow> lines_acc cur s \<noteq> []"
  by (induction s arbitrary: cur) auto

lemma lines_of_nonempty: "s \<noteq> [] \<Longrightarrow> lines_of s \<noteq> []"
  by (simp add: lines_of_def lines_acc_nonempty)

lemma newline_notin_str_repeat: "CHR ''\<newline>'' \<notin> set (str_repeat ''    '' d)"
  by (auto simp: str_repeat_def)

lemma set_str_nat: "set (str_nat n) \<subseteq> set ''0123456789''"
proof (induction n rule: str_nat.induct)
  case (1 n)
  have digit: "''0123456789'' ! k \<in> set ''0123456789''" if "k < 10" for k
    using that by (intro nth_mem) simp
  show ?case
  proof (cases "n < 10")
    case True
    with digit [of n] show ?thesis by (subst str_nat.simps) simp
  next
    case False
    have "n mod 10 < 10" by simp
    with "1.IH" [OF False] digit [of "n mod 10"] False show ?thesis
      by (subst str_nat.simps) simp
  qed
qed

lemma newline_notin_str_int: "CHR ''\<newline>'' \<notin> set (str_int i)"
  using set_str_nat [of "nat i"] set_str_nat [of "nat (- i)"] by (auto simp: str_int_def)

lemma newline_notin_zero_pad: "CHR ''\<newline>'' \<notin> set (zero_pad w i)"
  using newline_notin_str_int [of i] by (auto simp: zero_pad_def Let_def)

lemma newline_notin_format_date: "CHR ''\<newline>'' \<notin> set (format_date tz t)"
  by (simp add: format_date_def strftime_def newline_notin_zero_pad)

subsection \<open>The sorted replies\<close>

lemma mset_sorted_replies: "mset (sorted_replies cs) = mset cs"
  by (simp add: sorted_replies_def sorted_py_def)

lemma sorted_replies_descending:
  "sorted_wrt (\<lambda>a b. created_ut (val a) \<ge> created_ut (val b)) (sorted_replies cs)"
proof -
  have "sorted (map (\<lambda>n. created_ut (val n)) (sort_key (\<lambda>n. created_ut (val n)) (rev cs)))"
    by (rule sorted_sort_key)
  then have "sorted_wrt (\<lambda>a b. created_ut (val a) \<le> created_ut (val b))
               (sort_key (\<lambda>n. created_ut (val n)) (rev cs))"
    by (simp add: sorted_map)
  then show ?thesis
    by (simp add: sorted_replies_def sorted_py_def sorted_wrt_rev)
qed

lemma sorted_replies_stable:
  "filter (\<lambda>c. created_ut (val c) = k) (sorted_replies cs) = filter (\<lambda>c. created_ut (val c) = k) cs"
proof -
  have "filter (\<lambda>c. created_ut (val c) = k) (sorted_replies cs) =
        rev (filter (\<lambda>c. created_ut (val c) = k) (sort_key (\<lambda>n. created_ut (val n)) (rev cs)))"
    by (simp add: sorted_replies_def sorted_py_def rev_filter)
  also have "\<dots> = rev (filter (\<lambda>c. created_ut (val c) = k) (rev cs))"
    by (simp only: sort_key_stable)
  also have "\<dots> = filter (\<lambda>c. created_ut (val c) = k) cs"
    by (simp add: rev_filter)
  finally show ?thesis .
qed

lemma sorted_replies_example:
  "created_ut (val a) = 100 \<Longrightarrow> created_ut (val b) = 300 \<Longrightarrow> created_ut (val c) = 200 \<Longrightarrow>
   sorted_replies [a, b, c] = [b, c, a]"
  by (simp add: sorted_replies_def sorted_py_def)

subsection \<open>The search for the segment\<close>

lemma match_comments_here_segment:
  "match_comments_here s =
     (if comments_segment_at s 0 then Some (takeWhile (\<lambda>c. c \<noteq> CHR ''/'') (drop 10 s)) else None)"
proof (cases "take 10 s = ''/comments/''")
  case False
  then show ?thesis by (simp add: match_comments_here_def comments_segment_at_def)
next
  case True
  show ?thesis
  proof (cases "10 < length s")
    case False
    with True show ?thesis by (simp add: match_comments_here_def comments_segment_at_def)
  next
    case long: True
    then have "drop 10 s = s ! 10 # drop (Suc 10) s"
      by (rule Cons_nth_drop_Suc [symmetric])
    with True long show ?thesis
      by (simp add: match_comments_here_def comments_segment_at_def del: drop_Suc_Cons)
  qed
qed

lemma comments_segment_at_Cons:
  "comments_segment_at (c # cs) (Suc j) = comments_segment_at cs j"
  by (simp add: comments_segment_at_def add.commute)

lemma drop_Suc_add: "drop (Suc k + n) (c # cs) = drop (k + n) cs"
  by simp

lemma re_search_first_segment:
  "comments_segment_at url i \<Longrightarrow> (\<forall>j<i. \<not> comments_segment_at url j) \<Longrightarrow>
   re_search_comments url = Some (takeWhile (\<lambda>c. c \<noteq> CHR ''/'') (drop (i + 10) url))"
proof (induction url arbitrary: i)
  case Nil
  then show ?case by (simp add: comments_segment_at_def)
next
  case (Cons c cs)
  show ?case
  proof (cases i)
    case 0
    with Cons.prems show ?thesis by (simp add: match_comments_here_segment)
  next
    case (Suc k)
    with Cons.prems have no0: "\<not> comments_segment_at (c # cs) 0" by blast
    from Suc Cons.prems have seg: "comments_segment_at cs k"
      by (simp add: comments_segment_at_Cons)
    have "\<forall>j<k. \<not> comments_segment_at cs j"
    proof (intro allI impI)
      fix j assume "j < k"
      with Suc Cons.prems(2) have "\<not> comments_segment_at (c # cs) (Suc j)" by simp
      then show "\<not> comments_segment_at cs j" by (simp add: comments_segment_at_Cons)
    qed
    have "drop (i + 10) (c # cs) = drop (k + 10) cs"
      unfolding Suc by (rule drop_Suc_add)
    with Cons.IH [OF seg \<open>\<forall>j<k. \<not> comments_segment_at cs j\<close>] no0 show ?thesis
      by (simp only: re_search_comments.simps match_comments_here_segment if_False option.case)
  qed
qed

lemma re_search_no_segment:
  "(\<forall>i. \<not> comments_segment_at url i) \<Longrightarrow> re_search_comments url = None"
proof (induction url)
  case Nil
  then show ?case by (simp add: match_comments_here_def)
next
  case (Cons c cs)
  have "\<forall>i. \<not> comments_segment_at cs i"
  proof
    fix i
    from Cons.prems have "\<not> comments_segment_at (c # cs) (Suc i)" by blast
    then show "\<not> comments_segment_at cs i" by (simp add: comments_segment_at_Cons)
  qed
  from Cons.IH [OF this] Cons.prems show ?case
    by (simp add: match_comments_here_segment)
qed

lemma takeWhile_until: "x \<notin> set xs \<Longrightarrow> takeWhile (\<lambda>c. c \<noteq> x) (xs @ x # ys) = xs"
  by (induction xs) auto

lemma segment_at_decomposition:
  assumes "pid \<noteq> []" "CHR ''/'' \<notin> set pid" "rest = [] \<or> hd rest = CHR ''/''"
  shows "comments_segment_at (pre @ ''/comments/'' @ pid @ rest) (length pre)"
    and "takeWhile (\<lambda>c. c \<noteq> CHR ''/'') (drop (length pre + 10) (pre @ ''/comments/'' @ pid @ rest)) = pid"
proof -
  from assms(1) obtain p ps where pid: "pid = p # ps" by (cases pid) auto
  with assms(2) have "p \<noteq> CHR ''/''" by auto
  then show "comments_segment_at (pre @ ''/comments/'' @ pid @ rest) (length pre)"
    by (simp add: comments_segment_at_def pid nth_append)
  have "takeWhile (\<lambda>c. c \<noteq> CHR ''/'') (pid @ rest) = pid"
  proof (cases rest)
    case Nil
    with assms(2) show ?thesis by auto
  next
    case (Cons r rs)
    with assms(3) have "r = CHR ''/''" by simp
    with Cons assms(2) show ?thesis by (simp add: takeWhile_until)
  qed
  then show "takeWhile (\<lambda>c. c \<noteq> CHR ''/'') (drop (length pre + 10) (pre @ ''/comments/'' @ pid @ rest)) = pid"
    by simp
qed

subsection \<open>Runs of the formatter\<close>




section \<open>The comment tree formatter\<close>

text \<open>
  C10. For every comment tree node and every depth, the output of the formatter is not
  empty and ends with a line feed. Hence whatever string is appended to a rendered block
  starts on a line of its own: the lines of the concatenation are the lines of the block
  followed by the lines of the appended string.
\<close>

theorem format_comment_tree_newline_terminated:
  "format_comment_tree tz n d \<noteq> [] \<and>
   last (format_comment_tree tz n d) = CHR ''\<newline>'' \<and>
   lines_of (format_comment_tree tz n d @ s) = lines_of (format_comment_tree tz n d) @ lines_of s"
proof -
  have ends: "format_comment_tree tz n d \<noteq> [] \<and> last (format_comment_tree tz n d) = CHR ''\<newline>''"
  proof (induction tz n d rule: format_comment_tree.induct)
    case (1 tz v cs d)
    let ?own = "str_repeat ''    '' d @ format_date tz (created_ut v) @ '' ['' @
         str_or (author_display_name v) ''[deleted]'' @ ''] Score: '' @ str_int (score v) @ ''\<newline>'' @
       str_repeat ''    '' d @ body v @ ''\<newline>''"
    let ?g = "\<lambda>c. str_repeat ''    '' d @ ''> '' @ format_comment_tree tz c (d + 1)"
    have own: "?own \<noteq> []" "last ?own = CHR ''\<newline>''"
      by simp_all
    have kids: "?g c \<noteq> [] \<and> last (?g c) = CHR ''\<newline>''" if "c \<in> set (sorted_replies cs)" for c
      using "1.IH" [OF refl refl refl refl refl that] by simp
    have "last (?own @ concat (map ?g (sorted_replies cs))) = CHR ''\<newline>''"
      using own kids by (rule last_append_blocks)
    moreover have "format_comment_tree tz (CommentTreeNode v cs) d =
        ?own @ concat (map ?g (sorted_replies cs))"
      by (simp add: format_unfold)
    ultimately show ?case by simp
  qed
  then have "lines_of (format_comment_tree tz n d @ s) =
      lines_of (format_comment_tree tz n d) @ lines_of s"
    by (simp add: lines_of_def lines_acc_append_terminated)
  with ends show ?thesis by simp
qed

text \<open>
  C1, as stated: every line of a reply's rendered block is prefixed with \<^verbatim>\<open>"> "\<close> under
  its parent. It fails on a comment with one reply, formatted at depth 0: the reply's
  block is two lines, and the second, the reply's body line, does not start with the
  marker.
\<close>

theorem reply_lines_not_all_prefixed:
  "format_comment_tree utc ex_thread 0 =
     ''2020-09-13 12:26:40 UTC [[deleted]] Score: -2\<newline>top\<newline>'' @
     ''>     2023-11-14 22:13:20 UTC [bob] Score: 3\<newline>    reply\<newline>'' \<and>
   \<not> every_line_prefixed ''> ''
       ''>     2023-11-14 22:13:20 UTC [bob] Score: 3\<newline>    reply\<newline>''"
  by code_simp

text \<open>
  C1, amended. For every node, at every level of the recursion, the output is the
  node's header line and body line followed, for each reply in sorted order, by the
  parent's indentation, one marker \<^verbatim>\<open>"> "\<close> and the reply's block as the recursive call
  at the next depth returned it. The marker is added once per reply block, in front of
  its first line: the first line of the block gets the prefix, each later line of the
  block is the line the recursive call produced.
\<close>

theorem reply_block_prefixed_once:
  "format_comment_tree tz (CommentTreeNode v cs) d =
     str_repeat ''    '' d @ format_date tz (created_ut v) @ '' ['' @
       str_or (author_display_name v) ''[deleted]'' @ ''] Score: '' @ str_int (score v) @ ''\<newline>'' @
     str_repeat ''    '' d @ body v @ ''\<newline>'' @
     concat (map (\<lambda>c. (str_repeat ''    '' d @ ''> '') @ format_comment_tree tz c (d + 1))
               (sorted_replies cs)) \<and>
   (\<forall>c \<in> set cs. \<exists>first later.
      lines_of (format_comment_tree tz c (d + 1)) = first # later \<and>
      lines_of ((str_repeat ''    '' d @ ''> '') @ format_comment_tree tz c (d + 1)) =
        ((str_repeat ''    '' d @ ''> '') @ first) # later)"
proof (intro conjI ballI)
  show "format_comment_tree tz (CommentTreeNode v cs) d =
     str_repeat ''    '' d @ format_date tz (created_ut v) @ '' ['' @
       str_or (author_display_name v) ''[deleted]'' @ ''] Score: '' @ str_int (score v) @ ''\<newline>'' @
     str_repeat ''    '' d @ body v @ ''\<newline>'' @
     concat (map (\<lambda>c. (str_repeat ''    '' d @ ''> '') @ format_comment_tree tz c (d + 1))
               (sorted_replies cs))"
    by (simp add: format_unfold)
next
  fix c assume "c \<in> set cs"
  let ?p = "str_repeat ''    '' d @ ''> ''"
  let ?block = "format_comment_tree tz c (d + 1)"
  obtain v' cs' where c: "c = CommentTreeNode v' cs'"
    by (cases c)
  have nonempty: "?block \<noteq> []"
    by (simp add: c format_unfold)
  have marker: "CHR ''\<newline>'' \<notin> set ?p"
    using newline_notin_str_repeat [of d] by simp
  have "lines_of ?block \<noteq> []"
    using nonempty by (rule lines_of_nonempty)
  then obtain first later where split: "lines_of ?block = first # later"
    by (cases "lines_of ?block") auto
  from lines_of_prefixed_block [OF marker nonempty] split
  have "lines_of (?p @ ?block) = (?p @ first) # later"
    by simp
  with split show "\<exists>first later. lines_of ?block = first # later \<and>
      lines_of (?p @ ?block) = (?p @ first) # later"
    by blast
qed

theorem reply_block_prefixed_once_witness:
  "ex_reply \<in> set [ex_reply] \<and>
   (\<exists>first later.
      lines_of (format_comment_tree utc ex_reply (0 + 1)) = first # later \<and>
      lines_of ((str_repeat ''    '' 0 @ ''> '') @ format_comment_tree utc ex_reply (0 + 1)) =
        ((str_repeat ''    '' 0 @ ''> '') @ first) # later)"
  using reply_block_prefixed_once [of utc "\<lparr>author_display_name = None, created_ut = 1600000000,
    score = - 2, body = ''top''\<rparr>" "[ex_reply]" 0]
  by simp

text \<open>
  C3, as stated: the replies of every node are rendered in strictly descending order of
  \<^verbatim>\<open>created_ut\<close>. It fails on a comment with two replies created at the same time 7:
  both are rendered, in their original order, and their times are not strictly
  descending.
\<close>

theorem replies_equal_times_not_strictly_descending:
  "format_comment_tree utc ex_ties 0 =
     ''1970-01-01 00:00:50 UTC [op] Score: 0\<newline>root\<newline>'' @
     ''>     1970-01-01 00:00:07 UTC [x] Score: 1\<newline>    x\<newline>'' @
     ''>     1970-01-01 00:00:07 UTC [y] Score: 1\<newline>    y\<newline>'' \<and>
   reply_times (sorted_replies (children ex_ties)) = [7, 7] \<and>
   \<not> sorted_wrt (>) (reply_times (sorted_replies (children ex_ties)))"
  by code_simp

text \<open>
  C3, amended. For every node, at every level of the recursion, the reply blocks follow
  the node's own two lines in the order of the sorted replies. The sorted replies are
  the replies themselves, rearranged (none lost, none added), in descending order of
  \<^verbatim>\<open>created_ut\<close>, newest first, where replies with the same \<^verbatim>\<open>created_ut\<close> keep the
  order they have among the children. In particular replies created at 100, 300 and
  200 are rendered second, third, first: 300, then 200, then 100.
\<close>

theorem replies_rendered_newest_first:
  "format_comment_tree tz (CommentTreeNode v cs) d =
     str_repeat ''    '' d @ format_date tz (created_ut v) @ '' ['' @
       str_or (author_display_name v) ''[deleted]'' @ ''] Score: '' @ str_int (score v) @ ''\<newline>'' @
     str_repeat ''    '' d @ body v @ ''\<newline>'' @
     concat (map (\<lambda>c. (str_repeat ''    '' d @ ''> '') @ format_comment_tree tz c (d + 1))
               (sorted_replies cs)) \<and>
   mset (sorted_replies cs) = mset cs \<and>
   sorted_wrt (\<ge>) (reply_times (sorted_replies cs)) \<and>
   (\<forall>t. filter (\<lambda>c. created_ut (val c) = t) (sorted_replies cs) =
        filter (\<lambda>c. created_ut (val c) = t) cs) \<and>
   (reply_times cs = [100, 300, 200] \<longrightarrow>
      sorted_replies cs = [cs ! 1, cs ! 2, cs ! 0] \<and>
      reply_times (sorted_replies cs) = [300, 200, 100])"
proof (intro conjI allI impI)
  show "format_comment_tree tz (CommentTreeNode v cs) d =
     str_repeat ''    '' d @ format_date tz (created_ut v) @ '' ['' @
       str_or (author_display_name v) ''[deleted]'' @ ''] Score: '' @ str_int (score v) @ ''\<newline>'' @
     str_repeat ''    '' d @ body v @ ''\<newline>'' @
     concat (map (\<lambda>c. (str_repeat ''    '' d @ ''> '') @ format_comment_tree tz c (d + 1))
               (sorted_replies cs))"
    by (simp add: format_unfold)
next
  show "mset (sorted_replies cs) = mset cs"
    by (rule mset_sorted_replies)
next
  from sorted_replies_descending [of cs]
  show "sorted_wrt (\<ge>) (reply_times (sorted_replies cs))"
    by (simp add: reply_times_def sorted_wrt_map)
next
  fix t
  show "filter (\<lambda>c. created_ut (val c) = t) (sorted_replies cs) =
        filter (\<lambda>c. created_ut (val c) = t) cs"
    by (rule sorted_replies_stable)
next
  assume times: "reply_times cs = [100, 300, 200]"
  then obtain a b c where cs: "cs = [a, b, c]"
    by (auto simp: reply_times_def map_eq_Cons_conv)
  with times have keys: "created_ut (val a) = 100" "created_ut (val b) = 300" "created_ut (val c) = 200"
    by (simp_all add: reply_times_def)
  then have sorted: "sorted_replies cs = [b, c, a]"
    unfolding cs by (rule sorted_replies_example)
  then show "sorted_replies cs = [cs ! 1, cs ! 2, cs ! 0]"
    by (simp add: cs)
  from sorted keys show "reply_times (sorted_replies cs) = [300, 200, 100]"
    by (simp add: reply_times_def)
qed

theorem replies_rendered_newest_first_witness:
  "reply_times (children ex_three) = [100, 300, 200] \<and>
   sorted_replies (children ex_three) =
     [children ex_three ! 1, children ex_three ! 2, children ex_three ! 0] \<and>
   reply_times (sorted_replies (children ex_three)) = [300, 200, 100]"
proof -
  have times: "reply_times (children ex_three) = [100, 300, 200]"
    by (simp add: ex_three_def ex_leaf_def reply_times_def)
  with replies_rendered_newest_first [of utc "val ex_three" "children ex_three" 0]
  show ?thesis
    by blast
qed

text \<open>
  C4, as stated: a node without replies renders as exactly two lines. It fails on a
  comment whose body holds a line feed, which the data model allows: the body
  \<^verbatim>\<open>a\nb\<close> is written as it is, and the output has three lines.
\<close>

theorem leaf_multiline_body_three_lines:
  "format_comment_tree utc ex_multiline 0 =
     ''1970-01-01 00:00:00 UTC [[deleted]] Score: 10\<newline>a\<newline>b\<newline>'' \<and>
   lines_of (format_comment_tree utc ex_multiline 0) =
     [''1970-01-01 00:00:00 UTC [[deleted]] Score: 10'', ''a'', ''b''] \<and>
   length (lines_of (format_comment_tree utc ex_multiline 0)) \<noteq> 2"
  by code_simp

text \<open>
  C4, amended. For every node without replies, formatted at depth \<open>d\<close>, the output is
  exactly the header \<^verbatim>\<open>{indent}{formatted_date} [{author_or_deleted}] Score: {score}\<close>,
  a line feed, \<^verbatim>\<open>{indent}{body}\<close> and a line feed, where the indentation is four spaces
  repeated \<open>d\<close> times; nothing follows, so there is no trailing \<^verbatim>\<open>"> "\<close>. These are
  exactly two lines whenever neither the author's name nor the body contains a line
  feed.
\<close>

theorem leaf_renders_header_and_body:
  "format_comment_tree tz (CommentTreeNode v []) d =
     (concat (replicate (nat d) ''    '') @ format_date tz (created_ut v) @ '' ['' @
        str_or (author_display_name v) ''[deleted]'' @ ''] Score: '' @ str_int (score v)) @
     ''\<newline>'' @
     (concat (replicate (nat d) ''    '') @ body v) @ ''\<newline>'' \<and>
   (CHR ''\<newline>'' \<notin> set (str_or (author_display_name v) ''[deleted]'') \<and>
    CHR ''\<newline>'' \<notin> set (body v) \<longrightarrow>
    lines_of (format_comment_tree tz (CommentTreeNode v []) d) =
      [concat (replicate (nat d) ''    '') @ format_date tz (created_ut v) @ '' ['' @
         str_or (author_display_name v) ''[deleted]'' @ ''] Score: '' @ str_int (score v),
       concat (replicate (nat d) ''    '') @ body v])"
proof -
  let ?ind = "concat (replicate (nat d) ''    '')"
  let ?header = "?ind @ format_date tz (created_ut v) @ '' ['' @
        str_or (author_display_name v) ''[deleted]'' @ ''] Score: '' @ str_int (score v)"
  let ?body = "?ind @ body v"
  have out: "format_comment_tree tz (CommentTreeNode v []) d = ?header @ ''\<newline>'' @ ?body @ ''\<newline>''"
    by (simp add: format_unfold sorted_replies_def sorted_py_def str_repeat_def)
  have ind: "CHR ''\<newline>'' \<notin> set ?ind"
    using newline_notin_str_repeat [of d] by (simp add: str_repeat_def)
  have "lines_of (?header @ ''\<newline>'' @ ?body @ ''\<newline>'') = [?header, ?body]"
    if author: "CHR ''\<newline>'' \<notin> set (str_or (author_display_name v) ''[deleted]'')"
      and body: "CHR ''\<newline>'' \<notin> set (body v)"
  proof -
    have header: "CHR ''\<newline>'' \<notin> set ?header"
      using ind author newline_notin_format_date [of tz "created_ut v"]
        newline_notin_str_int [of "score v"]
      by simp
    have body_line: "CHR ''\<newline>'' \<notin> set ?body"
      using ind body by simp
    have "lines_of (?header @ CHR ''\<newline>'' # (?body @ CHR ''\<newline>'' # [])) =
        ?header # lines_of (?body @ CHR ''\<newline>'' # [])"
      using header by (rule lines_of_line)
    also have "lines_of (?body @ CHR ''\<newline>'' # []) = ?body # lines_of []"
      using body_line by (rule lines_of_line)
    finally show ?thesis
      by (simp add: lines_of_def)
  qed
  with out show ?thesis
    by simp
qed

theorem leaf_renders_header_and_body_witness:
  "CHR ''\<newline>'' \<notin> set (str_or (Some ''bob'') ''[deleted]'') \<and>
   CHR ''\<newline>'' \<notin> set ''reply'' \<and>
   lines_of (format_comment_tree utc ex_reply 1) =
     [''    2023-11-14 22:13:20 UTC [bob] Score: 3'', ''    reply'']"
proof -
  let ?v = "\<lparr>author_display_name = Some ''bob'', created_ut = 1700000000, score = 3,
    body = ''reply''\<rparr>"
  have date: "format_date utc 1700000000 = ''2023-11-14 22:13:20 UTC''"
    by code_simp
  have score: "str_int 3 = ''3''"
    by code_simp
  have author: "str_or (Some ''bob'') ''[deleted]'' = ''bob''"
    by (simp add: str_or_def)
  have no_line_feed: "CHR ''\<newline>'' \<notin> set (str_or (author_display_name ?v) ''[deleted]'') \<and>
      CHR ''\<newline>'' \<notin> set (body ?v)"
    by (simp add: author)
  have "lines_of (format_comment_tree utc ex_reply 1) =
      [''    '' @ format_date utc 1700000000 @ '' ['' @ str_or (Some ''bob'') ''[deleted]'' @
         ''] Score: '' @ str_int 3,
       ''    '' @ ''reply'']"
    using leaf_renders_header_and_body [of utc ?v 1, THEN conjunct2, rule_format, OF no_line_feed]
    by (simp add: ex_reply_def)
  then show ?thesis
    by (simp add: date score author)
qed



section \<open>The URL resolver and the entry points\<close>

text \<open>
  C2. When the input holds the literal \<^verbatim>\<open>/comments/\<close> followed by a non-empty run
  \<open>post_id\<close> of characters other than \<^verbatim>\<open>/\<close>, the run ending at a \<^verbatim>\<open>/\<close> or at the end
  of the string (so it is maximal), and no such segment starts further left, the
  resolver returns exactly \<open>post_id\<close>. When the input holds no such segment at any
  position, the resolver finds nothing and \<^verbatim>\<open>fetch_reddit_post_from_url\<close> returns the
  invalid-URL message whatever the client would answer, also a client whose every call
  raises: no fetch is reached.
\<close>

theorem resolve_post_id_first_segment:
  "(url = pre @ ''/comments/'' @ post_id @ rest \<and>
    post_id \<noteq> [] \<and> CHR ''/'' \<notin> set post_id \<and> (rest = [] \<or> hd rest = CHR ''/'') \<and>
    (\<forall>j<length pre. \<not> comments_segment_at url j) \<longrightarrow>
      re_search_comments url = Some post_id) \<and>
   ((\<forall>i. \<not> comments_segment_at url i) \<longrightarrow>
      re_search_comments url = None \<and>
      fetch_reddit_post_from_url client tz url =
        Text ''Invalid Reddit post URL. Could not extract post ID.'')"
proof (intro conjI impI)
  assume found: "url = pre @ ''/comments/'' @ post_id @ rest \<and>
    post_id \<noteq> [] \<and> CHR ''/'' \<notin> set post_id \<and> (rest = [] \<or> hd rest = CHR ''/'') \<and>
    (\<forall>j<length pre. \<not> comments_segment_at url j)"
  then have url: "url = pre @ ''/comments/'' @ post_id @ rest"
    and id: "post_id \<noteq> []" "CHR ''/'' \<notin> set post_id" "rest = [] \<or> hd rest = CHR ''/''"
    and first: "\<forall>j<length pre. \<not> comments_segment_at url j"
    by blast+
  have here: "comments_segment_at url (length pre)"
    unfolding url using id by (rule segment_at_decomposition(1))
  have run: "takeWhile (\<lambda>c. c \<noteq> CHR ''/'') (drop (length pre + 10) url) = post_id"
    unfolding url using id by (rule segment_at_decomposition(2))
  from re_search_first_segment [OF here first] run
  show "re_search_comments url = Some post_id"
    by simp
next
  assume "\<forall>i. \<not> comments_segment_at url i"
  then show none: "re_search_comments url = None"
    by (rule re_search_no_segment)
  then show "fetch_reddit_post_from_url client tz url =
      Text ''Invalid Reddit post URL. Could not extract post ID.''"
    by (simp add: fetch_reddit_post_from_url_def fetch_reddit_post_from_url_try_def)
qed

theorem resolve_post_id_first_segment_witness:
  "re_search_comments
     ''https://www.reddit.com/r/learnpython/comments/12345ab/my_first_post/'' = Some ''12345ab'' \<and>
   (re_search_comments ''https://reddit.com/nope'' = None \<and>
    fetch_reddit_post_from_url (ex_failing_client ''boom'') utc ''https://reddit.com/nope'' =
      Text ''Invalid Reddit post URL. Could not extract post ID.'')"
proof -
  let ?url = "''https://www.reddit.com/r/learnpython/comments/12345ab/my_first_post/''"
  let ?pre = "''https://www.reddit.com/r/learnpython''"
  have "\<forall>j \<in> set [0..<36]. \<not> comments_segment_at ?url j"
    by code_simp
  then have first: "\<forall>j<length ?pre. \<not> comments_segment_at ?url j"
    by simp
  have shape: "?url = ?pre @ ''/comments/'' @ ''12345ab'' @ ''/my_first_post/''"
    "''12345ab'' \<noteq> []" "CHR ''/'' \<notin> set ''12345ab''"
    "''/my_first_post/'' = [] \<or> hd ''/my_first_post/'' = CHR ''/''"
    by simp_all
  have found: "?url = ?pre @ ''/comments/'' @ ''12345ab'' @ ''/my_first_post/'' \<and>
      ''12345ab'' \<noteq> [] \<and> CHR ''/'' \<notin> set ''12345ab'' \<and>
      (''/my_first_post/'' = [] \<or> hd ''/my_first_post/'' = CHR ''/'') \<and>
      (\<forall>j<length ?pre. \<not> comments_segment_at ?url j)"
    by (intro conjI) (rule shape first)+
  let ?nope = "''https://reddit.com/nope''"
  have short: "\<forall>i \<in> set [0..<13]. \<not> comments_segment_at ?nope i"
    by code_simp
  have nowhere: "\<forall>i. \<not> comments_segment_at ?nope i"
  proof
    fix i
    show "\<not> comments_segment_at ?nope i"
    proof (cases "i < 13")
      case True
      with short show ?thesis by simp
    next
      case False
      have "length ?nope = 23" by simp
      with False have "\<not> i + 10 < length ?nope" by linarith
      then show ?thesis unfolding comments_segment_at_def by blast
    qed
  qed
  show ?thesis
    by (rule conjI
      [OF resolve_post_id_first_segment [of ?url ?pre "''12345ab''" "''/my_first_post/''",
            THEN conjunct1, THEN mp, OF found]
          resolve_post_id_first_segment [of ?nope _ _ _ "ex_failing_client ''boom''" utc,
            THEN conjunct2, THEN mp, OF nowhere]])
qed







section \<open>Determinism\<close>



end
